theory Spec2Isabelle
  imports Main
begin

section \<open>The Metadatum table (jasmin_metadata/models/base.py)\<close>

text \<open>
  A model instance is known to the metadata code through three things only: the content
  type of its model (\<^verbatim>\<open>ContentType.objects.get_for_model(obj)\<close>), its primary key
  (\<^verbatim>\<open>obj.pk\<close>, stored in the \<^verbatim>\<open>CharField\<close> column \<^verbatim>\<open>object_id\<close>, hence a string) and
  the values of its own columns. Instances are saved ones: \<^verbatim>\<open>obj.pk\<close> is set.
\<close>

record 'o model_instance =
  instance_model :: string
  instance_pk :: string
  instance_fields :: 'o

text \<open>
  One row of \<^verbatim>\<open>Metadatum\<close>. \<open>datum_id\<close> is the \<^verbatim>\<open>AutoField\<close> primary key of migration
  0003; \<open>datum_value\<close> is the column \<^verbatim>\<open>value = PickledObjectField(null = True)\<close>: \<open>None\<close>
  is the database NULL (Python's \<^verbatim>\<open>None\<close>), \<open>Some v\<close> a stored object. The type of the
  stored objects is a parameter.
\<close>

record 'v metadatum =
  datum_id :: nat
  content_type :: string
  object_id :: string
  key :: string
  datum_value :: "'v option"

text \<open>
  The database: the Metadatum table in insertion order with the next value of its id
  sequence, and the rows of all other models, keyed by (content type, primary key).
\<close>

record ('v, 'o) database =
  metadata_rows :: "'v metadatum list"
  next_id :: nat
  object_rows :: "((string \<times> string) \<times> 'o) list"

datatype error = IntegrityError

text \<open>\<^verbatim>\<open>unique_together = ('content_type', 'object_id', 'key')\<close>\<close>

definition unique_key :: "'v metadatum \<Rightarrow> string \<times> string \<times> string" where
  "unique_key d = (content_type d, object_id d, key d)"

definition unique_together :: "('v, 'o) database \<Rightarrow> bool" where
  "unique_together db = distinct (map unique_key (metadata_rows db))"

text \<open>The lookup \<^verbatim>\<open>filter(content_type = ct, object_id = oid)\<close>.\<close>

definition refers_to :: "string \<Rightarrow> string \<Rightarrow> 'v metadatum \<Rightarrow> bool" where
  "refers_to ct oid d = (content_type d = ct \<and> object_id d = oid)"

definition filter_metadata :: "string \<Rightarrow> string \<Rightarrow> ('v, 'o) database \<Rightarrow> 'v metadatum list" where
  "filter_metadata ct oid db = filter (refers_to ct oid) (metadata_rows db)"

text \<open>\<^verbatim>\<open>Metadatum.objects.filter(content_type = ct, object_id = oid).delete()\<close>\<close>

definition delete_metadata :: "string \<Rightarrow> string \<Rightarrow> ('v, 'o) database \<Rightarrow> ('v, 'o) database" where
  "delete_metadata ct oid db =
     db\<lparr>metadata_rows := filter (\<lambda>d. \<not> refers_to ct oid d) (metadata_rows db)\<rparr>"

text \<open>
  \<^verbatim>\<open>Metadatum.objects.create(content_type, object_id, key, value)\<close>: the insert is refused
  with \<^verbatim>\<open>IntegrityError\<close> when a row with the same (content_type, object_id, key)
  exists, and the table is then as before; otherwise the row is appended under a fresh
  id. A NULL value is accepted (\<^verbatim>\<open>null = True\<close>).
\<close>

definition create ::
  "string \<Rightarrow> string \<Rightarrow> string \<Rightarrow> 'v option \<Rightarrow> ('v, 'o) database
     \<Rightarrow> (error + 'v metadatum) \<times> ('v, 'o) database" where
  "create ct oid k v db =
     (if (ct, oid, k) \<in> set (map unique_key (metadata_rows db))
      then (Inl IntegrityError, db)
      else (let d = \<lparr>datum_id = next_id db, content_type = ct, object_id = oid,
                      key = k, datum_value = v\<rparr>
            in (Inr d, db\<lparr>metadata_rows := metadata_rows db @ [d],
                          next_id := Suc (next_id db)\<rparr>)))"

text \<open>
  \<^verbatim>\<open>self.metadata.all()\<close>: the generic relation selects the rows whose content type and
  object id are those of \<^verbatim>\<open>self\<close>. The query runs when the \<^verbatim>\<open>for\<close> statement starts, on
  the table as it is then (no prefetch cache is modelled).
\<close>

definition metadata_all :: "'o model_instance \<Rightarrow> ('v, 'o) database \<Rightarrow> 'v metadatum list" where
  "metadata_all self db = filter_metadata (instance_model self) (instance_pk self) db"

text \<open>
  The loop of \<^verbatim>\<open>copy_metadata_to\<close>: one \<^verbatim>\<open>create\<close> per datum; an exception leaves the
  loop with the rows created so far in the table (the method opens no transaction).
\<close>

fun create_copies ::
  "string \<Rightarrow> string \<Rightarrow> 'v metadatum list \<Rightarrow> ('v, 'o) database
     \<Rightarrow> (error + unit) \<times> ('v, 'o) database" where
  "create_copies ct oid [] db = (Inr (), db)"
| "create_copies ct oid (datum # data) db =
     (case create ct oid (key datum) (datum_value datum) db of
        (Inl e, db') \<Rightarrow> (Inl e, db')
      | (Inr _, db') \<Rightarrow> create_copies ct oid data db')"

definition copy_metadata_to ::
  "'o model_instance \<Rightarrow> 'o model_instance \<Rightarrow> ('v, 'o) database
     \<Rightarrow> (error + unit) \<times> ('v, 'o) database" where
  "copy_metadata_to self obj db =
     (let ct = instance_model obj;
          db1 = delete_metadata ct (instance_pk obj) db
      in create_copies ct (instance_pk obj) (metadata_all self db1) db1)"

text \<open>
  A Python dict built from key/value pairs in order: a later pair replaces an earlier
  one with the same key.
\<close>

definition dict_of :: "('k \<times> 'a) list \<Rightarrow> ('k \<rightharpoonup> 'a)" where
  "dict_of kvs = foldl (\<lambda>m kv. m(fst kv \<mapsto> snd kv)) Map.empty kvs"

text \<open>
  \<^verbatim>\<open>HasMetadataModelAdmin.get_metadata_form_initial_data\<close> (admin.py):
  \<^verbatim>\<open>{ d.key : d.value for d in metadata.all() }\<close> over the rows of the object. A key
  mapped to \<open>Some None\<close> is present in the dict with the value \<^verbatim>\<open>None\<close>.
\<close>

definition get_metadata_form_initial_data ::
  "'o model_instance \<Rightarrow> ('v, 'o) database \<Rightarrow> (string \<rightharpoonup> 'v option)" where
  "get_metadata_form_initial_data obj db =
     dict_of (map (\<lambda>d. (key d, datum_value d))
                  (filter_metadata (instance_model obj) (instance_pk obj) db))"

text \<open>
  Deleting a Metadatum through Django's \<^verbatim>\<open>Model.delete()\<close> removes that row: no model of
  the sources points at a Metadatum, and its \<^verbatim>\<open>GenericForeignKey\<close> (base.py, line 30)
  carries no deletion rule towards the object.
\<close>

definition delete_metadatum :: "'v metadatum \<Rightarrow> ('v, 'o) database \<Rightarrow> ('v, 'o) database" where
  "delete_metadatum datum db =
     db\<lparr>metadata_rows := filter (\<lambda>d. datum_id d \<noteq> datum_id datum) (metadata_rows db)\<rparr>"

text \<open>
  Deleting any other object goes through Django's deletion collector, which gathers
  every row that has to go with the object before anything is deleted. The models of the
  objects are not among the sources, so what the collector follows between them is a
  parameter: \<open>has_metadata_models\<close> lists the content types of the models that inherit
  \<^verbatim>\<open>HasMetadata\<close>, that is, that declare \<^verbatim>\<open>metadata = GenericRelation(Metadatum, ...)\<close>
  (base.py, lines 44-45); \<open>deleted_with\<close> lists the pairs \<open>(x, y)\<close> of objects for which
  collecting \<open>x\<close> collects \<open>y\<close>: \<open>y\<close> holds a foreign key to \<open>x\<close> with
  \<^verbatim>\<open>on_delete = CASCADE\<close>, or \<open>y\<close> is a multi-table parent of \<open>x\<close>. Only deletions that go
  through are modelled (no protected reference stops them).
\<close>

record relations =
  has_metadata_models :: "string list"
  deleted_with :: "((string \<times> string) \<times> (string \<times> string)) list"

text \<open>
  The rows of \<^verbatim>\<open>ContentType\<close> are objects as well: the row for a model has, under the
  content type of \<^verbatim>\<open>ContentType\<close> itself, the primary key that the \<^verbatim>\<open>content_type\<close> column
  of a Metadatum refers to.
\<close>

definition ContentType_model :: string where
  "ContentType_model = ''contenttype''"

text \<open>
  One round of the collector adds the objects that go with those already collected;
  \<open>collect\<close> runs a given number of rounds. Every round that adds something adds a
  second component of \<open>deleted_with\<close> not seen before, so as many rounds as there are
  pairs reach everything (lemma \<open>collected_closed\<close> below).
\<close>

definition collect_step ::
  "((string \<times> string) \<times> (string \<times> string)) list \<Rightarrow> (string \<times> string) list
     \<Rightarrow> (string \<times> string) list" where
  "collect_step pairs objs =
     objs @ filter (\<lambda>y. y \<notin> set objs) (map snd (filter (\<lambda>xy. fst xy \<in> set objs) pairs))"

fun collect ::
  "nat \<Rightarrow> ((string \<times> string) \<times> (string \<times> string)) list \<Rightarrow> (string \<times> string) list
     \<Rightarrow> (string \<times> string) list" where
  "collect 0 pairs objs = objs"
| "collect (Suc n) pairs objs = collect n pairs (collect_step pairs objs)"

text \<open>
  A list of objects is closed when it holds everything that goes with its members.
\<close>

definition closed_under ::
  "((string \<times> string) \<times> (string \<times> string)) list \<Rightarrow> (string \<times> string) list \<Rightarrow> bool" where
  "closed_under pairs objs = list_all (\<lambda>xy. fst xy \<notin> set objs \<or> snd xy \<in> set objs) pairs"

definition collected :: "relations \<Rightarrow> 'o model_instance \<Rightarrow> (string \<times> string) list" where
  "collected rel obj =
     collect (length (deleted_with rel)) (deleted_with rel)
       [(instance_model obj, instance_pk obj)]"

text \<open>
  A Metadatum row goes with the collected objects in two ways: through the generic
  relation, when it points to a collected object of a model that inherits
  \<^verbatim>\<open>HasMetadata\<close>; and through
  \<^verbatim>\<open>content_type = models.ForeignKey(ContentType, models.CASCADE)\<close> (base.py, line 28),
  when the row of its content type is collected.
\<close>

definition cascades_to :: "relations \<Rightarrow> (string \<times> string) list \<Rightarrow> 'v metadatum \<Rightarrow> bool" where
  "cascades_to rel objs d =
     (((content_type d, object_id d) \<in> set objs
        \<and> content_type d \<in> set (has_metadata_models rel))
      \<or> (ContentType_model, content_type d) \<in> set objs)"

definition delete_instance ::
  "relations \<Rightarrow> 'o model_instance \<Rightarrow> ('v, 'o) database \<Rightarrow> ('v, 'o) database" where
  "delete_instance rel obj db =
     (let objs = collected rel obj
      in db\<lparr>metadata_rows := filter (\<lambda>d. \<not> cascades_to rel objs d) (metadata_rows db),
            object_rows := filter (\<lambda>r. fst r \<notin> set objs) (object_rows db)\<rparr>)"

text \<open>
  \<^verbatim>\<open>obj.save()\<close>, which is all that \<^verbatim>\<open>ModelAdmin.save_model\<close> does: the row of the
  object is updated, or inserted when the table has none under its primary key.
\<close>

definition save_object :: "'o model_instance \<Rightarrow> ('v, 'o) database \<Rightarrow> ('v, 'o) database" where
  "save_object obj db =
     (let e = (instance_model obj, instance_pk obj)
      in if e \<in> set (map fst (object_rows db))
         then db\<lparr>object_rows :=
                   map (\<lambda>r. if fst r = e then (e, instance_fields obj) else r) (object_rows db)\<rparr>
         else db\<lparr>object_rows := object_rows db @ [(e, instance_fields obj)]\<rparr>)"

section \<open>The registry of field types (admin.py, FieldAdmin)\<close>

text \<open>
  A field model is identified by its \<^verbatim>\<open>_meta.model_name\<close>. An admin class is what
  \<^verbatim>\<open>type(name, bases, dict)\<close> builds: its name, its bases and its \<^verbatim>\<open>base_model\<close>.
  \<^verbatim>\<open>child_models\<close> is the class attribute of \<^verbatim>\<open>FieldAdmin\<close>, passed and returned.
\<close>

record admin_class =
  class_name :: string
  class_bases :: "string list"
  base_model :: string

definition register_field_type ::
  "(string \<times> admin_class) list \<Rightarrow> string \<Rightarrow> admin_class option \<Rightarrow> (string \<times> admin_class) list" where
  "register_field_type child_models model model_admin =
     child_models @
       [(model,
         (case model_admin of
            None \<Rightarrow> \<lparr>class_name = model @ ''Admin'', class_bases = [''FieldChildAdmin''],
                      base_model = model\<rparr>
          | Some a \<Rightarrow> a))]"

definition ChoiceFieldAdmin :: admin_class where
  "ChoiceFieldAdmin =
     \<lparr>class_name = ''ChoiceFieldAdmin'', class_bases = [''FieldChildAdmin''],
      base_model = ''choicefield''\<rparr>"

definition MultipleChoiceFieldAdmin :: admin_class where
  "MultipleChoiceFieldAdmin =
     \<lparr>class_name = ''MultipleChoiceFieldAdmin'', class_bases = [''FieldChildAdmin''],
      base_model = ''multiplechoicefield''\<rparr>"

text \<open>The fifteen registrations made when admin.py is imported (lines 134-148).\<close>

definition registered_child_models :: "(string \<times> admin_class) list" where
  "registered_child_models =
     foldl (\<lambda>cm (m, a). register_field_type cm m a) []
       [(''booleanfield'', None), (''singlelinetextfield'', None),
        (''multilinetextfield'', None), (''emailfield'', None), (''ipv4field'', None),
        (''regexfield'', None), (''slugfield'', None), (''urlfield'', None),
        (''integerfield'', None), (''floatfield'', None),
        (''choicefield'', Some ChoiceFieldAdmin),
        (''multiplechoicefield'', Some MultipleChoiceFieldAdmin),
        (''datefield'', None), (''datetimefield'', None), (''timefield'', None)]"

section \<open>Saving through the admin (admin.py, HasMetadataModelAdmin)\<close>

text \<open>
  The metadata form class is not part of the admin module; \<^verbatim>\<open>save_model\<close> uses three
  things of it, which are the fields of \<open>form_class\<close>: the errors of the form bound to
  the posted data under a prefix (a list of pairs of a field name and its error), its
  \<^verbatim>\<open>save(obj)\<close>, and \<^verbatim>\<open>is_valid()\<close>, which for a bound Django form is
  \<^verbatim>\<open>not self.errors\<close>.
\<close>

record ('r, 'e, 'v, 'o) form_class =
  form_errors :: "(string \<rightharpoonup> 'r) \<Rightarrow> string \<Rightarrow> (string \<times> 'e) list"
  form_save :: "(string \<rightharpoonup> 'r) \<Rightarrow> string \<Rightarrow> 'o model_instance
                  \<Rightarrow> ('v, 'o) database \<Rightarrow> ('v, 'o) database"

definition is_valid :: "('r, 'e, 'v, 'o) form_class \<Rightarrow> (string \<rightharpoonup> 'r) \<Rightarrow> string \<Rightarrow> bool" where
  "is_valid cls data prefix = (form_errors cls data prefix = [])"

record 'r request =
  POST :: "string \<rightharpoonup> 'r"
  request_method :: string

record ('r, 'e, 'v, 'o) has_metadata_model_admin =
  metadata_form_class :: "('r, 'e, 'v, 'o) form_class option"

definition get_metadata_form_class ::
  "('r, 'e, 'v, 'o) has_metadata_model_admin \<Rightarrow> 'r request \<Rightarrow> 'o model_instance
     \<Rightarrow> ('r, 'e, 'v, 'o) form_class option" where
  "get_metadata_form_class self request obj = metadata_form_class self"

text \<open>
  \<^verbatim>\<open>save_model\<close> (lines 204-217). \<^verbatim>\<open>super().save_model(request, obj, form, change)\<close>
  is \<open>save_object obj\<close>; the parent form and the change flag are passed on and not
  looked at.
\<close>

definition save_model ::
  "('r, 'e, 'v, 'o) has_metadata_model_admin \<Rightarrow> 'r request \<Rightarrow> 'o model_instance \<Rightarrow> 'f \<Rightarrow> bool
     \<Rightarrow> ('v, 'o) database \<Rightarrow> ('v, 'o) database" where
  "save_model self request obj form change db =
     (case get_metadata_form_class self request obj of
        None \<Rightarrow> save_object obj db
      | Some cls \<Rightarrow>
          if ''_has_metadata'' \<in> dom (POST request)
          then (if is_valid cls (POST request) ''metadata''
                then form_save cls (POST request) ''metadata'' obj (save_object obj db)
                else db)
          else db)"

text \<open>
  The error list handed to the template by \<^verbatim>\<open>response_add\<close> (lines 269-271): the
  errors of the parent form, extended by every value of \<^verbatim>\<open>metadata_form.errors\<close>.
\<close>

definition response_add_errors :: "'e list \<Rightarrow> (string \<times> 'e) list \<Rightarrow> 'e list" where
  "response_add_errors parent_errors metadata_errors =
     parent_errors @ (if metadata_errors \<noteq> [] then map snd metadata_errors else [])"

section \<open>The schema validator and the store operations of the specification\<close>

text \<open>
  Modelled from the spec: the per-field errors of a validation (sections 4.3 and 7). The
  module that builds the metadata form from the field definitions is not among the
  sources.
\<close>

datatype field_error = MissingRequiredError | InvalidValueError string

text \<open>
  Modelled from the spec: one rule of a compiled schema (section 4.3). A compiled schema
  is the ordered list of its rules, one per field: the field name, the required flag and
  the validator closure, where \<open>Inl\<close> carries the reason of a failure.
\<close>

record ('r, 'v) field_rule =
  rule_name :: string
  rule_required :: bool
  rule_validator :: "'r \<Rightarrow> string + 'v"

text \<open>
  Modelled from the spec: \<^verbatim>\<open>Schema.validate\<close> (section 4.3, steps 1 to 4), which returns
  the validated values and the errors. Every field is visited, in order; absent and
  required records \<open>MissingRequiredError\<close>, absent otherwise produces nothing; present
  runs the validator, whose failure records \<open>InvalidValueError\<close> with its reason; keys
  that name no field are never looked at.
\<close>

fun validate ::
  "('r, 'v) field_rule list \<Rightarrow> (string \<rightharpoonup> 'r)
     \<Rightarrow> (string \<times> 'v) list \<times> (string \<times> field_error) list" where
  "validate [] rawValues = ([], [])"
| "validate (f # fs) rawValues =
     (let (validated, errors) = validate fs rawValues
      in case rawValues (rule_name f) of
           None \<Rightarrow> if rule_required f
                   then (validated, (rule_name f, MissingRequiredError) # errors)
                   else (validated, errors)
         | Some x \<Rightarrow>
             (case rule_validator f x of
                Inl reason \<Rightarrow> (validated, (rule_name f, InvalidValueError reason) # errors)
              | Inr v \<Rightarrow> ((rule_name f, v) # validated, errors)))"

text \<open>
  Modelled from the spec: the result of a validation is valid iff no per-field error was
  recorded (section 4.3, step 5).
\<close>

definition schema_valid :: "('r, 'v) field_rule list \<Rightarrow> (string \<rightharpoonup> 'r) \<Rightarrow> bool" where
  "schema_valid schema rawValues = (snd (validate schema rawValues) = [])"

text \<open>
  Modelled from the spec: a field fails on a submission when it is required and absent,
  or present with a value its validator refuses (section 4.3, steps 2 and 3).
\<close>

definition rule_fails :: "(string \<rightharpoonup> 'r) \<Rightarrow> ('r, 'v) field_rule \<Rightarrow> bool" where
  "rule_fails rawValues f =
     (case rawValues (rule_name f) of
        None \<Rightarrow> rule_required f
      | Some x \<Rightarrow> isl (rule_validator f x))"

text \<open>
  Modelled from the spec: \<^verbatim>\<open>MetadataStore.set\<close> (section 4.4), the upsert keyed by
  (entity type, entity id, key); the module that writes submitted metadata is not among
  the sources. The row under the key gets the value; without one, a row is created.
\<close>

definition set_metadatum ::
  "string \<Rightarrow> string \<Rightarrow> string \<Rightarrow> 'v option \<Rightarrow> ('v, 'o) database \<Rightarrow> ('v, 'o) database" where
  "set_metadatum ct oid k v db =
     (if (ct, oid, k) \<in> set (map unique_key (metadata_rows db))
      then db\<lparr>metadata_rows :=
                map (\<lambda>d. if unique_key d = (ct, oid, k) then d\<lparr>datum_value := v\<rparr> else d)
                    (metadata_rows db)\<rparr>
      else snd (create ct oid k v db))"

text \<open>
  A bound Django form that has a prefix reads the raw value of the field \<^verbatim>\<open>name\<close> from
  the posted data under \<^verbatim>\<open>prefix-name\<close>; \<^verbatim>\<open>save_model\<close> binds the form with the prefix
  \<^verbatim>\<open>metadata\<close>.
\<close>

definition prefixed :: "string \<Rightarrow> (string \<rightharpoonup> 'r) \<Rightarrow> (string \<rightharpoonup> 'r)" where
  "prefixed prefix data = (\<lambda>name. data (prefix @ ''-'' @ name))"

text \<open>
  Modelled from the spec: the metadata form of a schema, as the admin uses it. Its errors
  are those of \<^verbatim>\<open>Schema.validate\<close> on the posted values; saving calls \<^verbatim>\<open>set\<close> for every
  name of the validated map (section 4.5).
\<close>

definition metadata_form ::
  "('r, 'v) field_rule list \<Rightarrow> ('r, field_error, 'v, 'o) form_class" where
  "metadata_form schema =
     \<lparr>form_errors = (\<lambda>data prefix. snd (validate schema (prefixed prefix data))),
      form_save = (\<lambda>data prefix obj db.
         fold (\<lambda>kv. set_metadatum (instance_model obj) (instance_pk obj) (fst kv) (Some (snd kv)))
              (fst (validate schema (prefixed prefix data))) db)\<rparr>"

section \<open>A small database, used to run the operations\<close>

definition project1 :: "string model_instance" where
  "project1 = \<lparr>instance_model = ''project'', instance_pk = ''1'',
               instance_fields = ''alpha''\<rparr>"

definition project2 :: "string model_instance" where
  "project2 = \<lparr>instance_model = ''project'', instance_pk = ''2'',
               instance_fields = ''beta''\<rparr>"

definition dataset9 :: "string model_instance" where
  "dataset9 = \<lparr>instance_model = ''dataset'', instance_pk = ''9'',
               instance_fields = ''gamma''\<rparr>"

definition project_content_type :: "string model_instance" where
  "project_content_type = \<lparr>instance_model = ''contenttype'', instance_pk = ''project'',
                            instance_fields = ''project''\<rparr>"

text \<open>
  Projects inherit \<^verbatim>\<open>HasMetadata\<close>, datasets do not; project 2 holds a cascading foreign
  key to dataset 9.
\<close>

definition sample_relations :: relations where
  "sample_relations =
     \<lparr>has_metadata_models = [''project''],
      deleted_with = [((''dataset'', ''9''), (''project'', ''2''))]\<rparr>"

definition colour_row :: "string metadatum" where
  "colour_row = \<lparr>datum_id = 1, content_type = ''project'', object_id = ''1'',
                 key = ''colour'', datum_value = Some ''red''\<rparr>"

definition notes_row :: "string metadatum" where
  "notes_row = \<lparr>datum_id = 2, content_type = ''project'', object_id = ''1'',
                key = ''notes'', datum_value = None\<rparr>"

definition size_row :: "string metadatum" where
  "size_row = \<lparr>datum_id = 3, content_type = ''project'', object_id = ''2'',
               key = ''size'', datum_value = Some ''big''\<rparr>"

definition owner_row :: "string metadatum" where
  "owner_row = \<lparr>datum_id = 4, content_type = ''dataset'', object_id = ''9'',
                key = ''owner'', datum_value = Some ''bob''\<rparr>"

definition sample_db :: "(string, string) database" where
  "sample_db =
     \<lparr>metadata_rows = [colour_row, notes_row, size_row, owner_row], next_id = 5,
      object_rows = [((''project'', ''1''), ''alpha''), ((''project'', ''2''), ''beta''),
                     ((''dataset'', ''9''), ''gamma'')]\<rparr>"

definition nonempty_text :: "string \<Rightarrow> string + string" where
  "nonempty_text x = (if x = [] then Inl ''empty value'' else Inr x)"

definition one_of :: "string list \<Rightarrow> string \<Rightarrow> string + string" where
  "one_of choices x = (if x \<in> set choices then Inr x else Inl ''not a valid choice'')"

definition sample_schema :: "(string, string) field_rule list" where
  "sample_schema =
     [\<lparr>rule_name = ''name'', rule_required = True, rule_validator = nonempty_text\<rparr>,
      \<lparr>rule_name = ''country'', rule_required = False,
       rule_validator = one_of [''UK'', ''US'']\<rparr>]"

definition sample_admin :: "(string, field_error, string, string) has_metadata_model_admin" where
  "sample_admin = \<lparr>metadata_form_class = Some (metadata_form sample_schema)\<rparr>"

definition bad_request :: "string request" where
  "bad_request =
     \<lparr>POST = map_of [(''_has_metadata'', ''1''), (''metadata-country'', ''FR'')],
      request_method = ''POST''\<rparr>"

definition unmarked_request :: "string request" where
  "unmarked_request =
     \<lparr>POST = map_of [(''metadata-name'', ''Ada''), (''metadata-country'', ''UK'')],
      request_method = ''POST''\<rparr>"

definition good_request :: "string request" where
  "good_request =
     \<lparr>POST = map_of [(''_has_metadata'', ''1''), (''metadata-name'', ''Ada''),
                     (''metadata-country'', ''UK'')],
      request_method = ''POST''\<rparr>"

section \<open>Frame of the copy\<close>

lemmas sample_defs = sample_db_def colour_row_def notes_row_def size_row_def owner_row_def
  project1_def project2_def dataset9_def

lemma filter_metadata_create:
  "(ct', oid') \<noteq> (ct, oid) \<Longrightarrow>
   filter_metadata ct' oid' (snd (create ct oid k v db)) = filter_metadata ct' oid' db"
  by (auto simp: create_def filter_metadata_def refers_to_def Let_def)

lemma filter_metadata_create_copies:
  "(ct', oid') \<noteq> (ct, oid) \<Longrightarrow>
   filter_metadata ct' oid' (snd (create_copies ct oid data db)) = filter_metadata ct' oid' db"
proof (induction data arbitrary: db)
  case Nil
  then show ?case by simp
next
  case (Cons datum data)
  obtain r db' where c: "create ct oid (key datum) (datum_value datum) db = (r, db')"
    by (cases "create ct oid (key datum) (datum_value datum) db")
  have same: "filter_metadata ct' oid' db' = filter_metadata ct' oid' db"
    using filter_metadata_create [OF Cons.prems, of "key datum" "datum_value datum" db] c
    by simp
  show ?case
  proof (cases r)
    case (Inl e)
    with c same show ?thesis by simp
  next
    case (Inr d)
    with c same Cons.IH [OF Cons.prems, of db'] show ?thesis by simp
  qed
qed

lemma filter_metadata_delete_other:
  "(ct', oid') \<noteq> (ct, oid) \<Longrightarrow>
   filter_metadata ct' oid' (delete_metadata ct oid db) = filter_metadata ct' oid' db"
  by (auto simp: filter_metadata_def delete_metadata_def refers_to_def intro: filter_cong)

lemma object_rows_delete_metadata:
  "object_rows (delete_metadata ct oid db) = object_rows db"
  by (simp add: delete_metadata_def)

lemma object_rows_create_copies:
  "object_rows (snd (create_copies ct oid data db)) = object_rows db"
proof (induction data arbitrary: db)
  case Nil
  then show ?case by simp
next
  case (Cons datum data)
  then show ?case
    by (cases "create ct oid (key datum) (datum_value datum) db")
       (auto simp: create_def Let_def split: if_splits sum.splits)
qed

text \<open>
  C9. \<^verbatim>\<open>copy_metadata_to\<close> changes only the rows of the destination: for every entity
  whose (content type, object id) pair is not the destination's, the entity's rows are
  after the copy what they were before it (the same rows, ids and order), whether the
  copy returns or raises; this holds for the rows of the source when the source is
  another entity. The rows of the other models are not touched either.
\<close>

theorem copy_metadata_to_frame:
  "(ct, oid) \<noteq> (instance_model obj, instance_pk obj) \<Longrightarrow>
   filter_metadata ct oid (snd (copy_metadata_to self obj db)) = filter_metadata ct oid db
   \<and> object_rows (snd (copy_metadata_to self obj db)) = object_rows db"
  by (simp add: copy_metadata_to_def Let_def filter_metadata_create_copies
      filter_metadata_delete_other object_rows_create_copies object_rows_delete_metadata)

theorem copy_metadata_to_frame_witness:
  "(''project'', ''1'') \<noteq> (instance_model project2, instance_pk project2)
   \<and> filter_metadata ''project'' ''1'' (snd (copy_metadata_to project1 project2 sample_db))
       = [colour_row, notes_row]
   \<and> filter_metadata ''project'' ''2'' (snd (copy_metadata_to project1 project2 sample_db))
       \<noteq> filter_metadata ''project'' ''2'' sample_db
   \<and> object_rows (snd (copy_metadata_to project1 project2 sample_db)) = object_rows sample_db"
  using copy_metadata_to_frame [of "''project''" "''1''" project2 project1 sample_db]
  by (simp add: sample_db_def colour_row_def notes_row_def size_row_def owner_row_def
      project1_def project2_def filter_metadata_def refers_to_def copy_metadata_to_def
      delete_metadata_def metadata_all_def Let_def create_def unique_key_def)

section \<open>The uniqueness constraint\<close>

lemma unique_together_create:
  "unique_together db \<Longrightarrow> unique_together (snd (create ct oid k v db))"
  by (auto simp: unique_together_def create_def Let_def unique_key_def)

lemma unique_together_delete_metadata:
  "unique_together db \<Longrightarrow> unique_together (delete_metadata ct oid db)"
  by (simp add: unique_together_def delete_metadata_def distinct_map_filter)

lemma unique_together_create_copies:
  "unique_together db \<Longrightarrow> unique_together (snd (create_copies ct oid data db))"
proof (induction data arbitrary: db)
  case Nil
  then show ?case by simp
next
  case (Cons datum data)
  obtain r db' where c: "create ct oid (key datum) (datum_value datum) db = (r, db')"
    by (cases "create ct oid (key datum) (datum_value datum) db")
  have u: "unique_together db'"
    using unique_together_create [OF Cons.prems, of ct oid "key datum" "datum_value datum"] c
    by simp
  show ?case
  proof (cases r)
    case (Inl e)
    with c u show ?thesis by simp
  next
    case (Inr d)
    with c Cons.IH [OF u] show ?thesis by simp
  qed
qed

lemma unique_together_copy_metadata_to:
  "unique_together db \<Longrightarrow> unique_together (snd (copy_metadata_to self obj db))"
  by (simp add: copy_metadata_to_def Let_def unique_together_create_copies
      unique_together_delete_metadata)

lemma unique_key_set_value:
  "unique_key (d\<lparr>datum_value := v\<rparr>) = unique_key d"
  by (simp add: unique_key_def)

lemma map_unique_key_update:
  "map unique_key (map (\<lambda>d. if unique_key d = t then d\<lparr>datum_value := v\<rparr> else d) rows)
     = map unique_key rows"
  by (induction rows) (simp_all add: unique_key_set_value)

lemma metadata_rows_set_metadatum_taken:
  "(ct, oid, k) \<in> set (map unique_key (metadata_rows db)) \<Longrightarrow>
   metadata_rows (set_metadatum ct oid k v db) =
     map (\<lambda>d. if unique_key d = (ct, oid, k) then d\<lparr>datum_value := v\<rparr> else d)
         (metadata_rows db)"
  by (simp add: set_metadatum_def)

lemma set_metadatum_free:
  "(ct, oid, k) \<notin> set (map unique_key (metadata_rows db)) \<Longrightarrow>
   set_metadatum ct oid k v db = snd (create ct oid k v db)"
  by (simp add: set_metadatum_def)

lemma metadata_rows_create_free:
  "(ct, oid, k) \<notin> set (map unique_key (metadata_rows db)) \<Longrightarrow>
   metadata_rows (snd (create ct oid k v db)) =
     metadata_rows db @ [\<lparr>datum_id = next_id db, content_type = ct, object_id = oid,
                             key = k, datum_value = v\<rparr>]"
  by (simp add: create_def Let_def)

lemma filter_metadata_create_same:
  "(ct, oid, k) \<notin> set (map unique_key (metadata_rows db)) \<Longrightarrow>
   filter_metadata ct oid (snd (create ct oid k v db)) =
     filter_metadata ct oid db @ [\<lparr>datum_id = next_id db, content_type = ct, object_id = oid,
                                     key = k, datum_value = v\<rparr>]"
  by (simp add: filter_metadata_def metadata_rows_create_free refers_to_def)

lemma create_free:
  "(ct, oid, k) \<notin> set (map unique_key (metadata_rows db)) \<Longrightarrow>
   fst (create ct oid k v db) =
     Inr \<lparr>datum_id = next_id db, content_type = ct, object_id = oid, key = k, datum_value = v\<rparr>"
  by (simp add: create_def Let_def)

lemma unique_together_set_metadatum:
  "unique_together db \<Longrightarrow> unique_together (set_metadatum ct oid k v db)"
proof (cases "(ct, oid, k) \<in> set (map unique_key (metadata_rows db))")
  case True
  assume "unique_together db"
  then show ?thesis
    unfolding unique_together_def metadata_rows_set_metadatum_taken [OF True]
      map_unique_key_update .
next
  case False
  assume "unique_together db"
  then show ?thesis
    by (simp only: set_metadatum_free [OF False] unique_together_create)
qed

lemma key_taken_set_metadatum:
  "(ct, oid, k) \<in> set (map unique_key (metadata_rows (set_metadatum ct oid k v db)))"
proof (cases "(ct, oid, k) \<in> set (map unique_key (metadata_rows db))")
  case True
  then show ?thesis
    unfolding metadata_rows_set_metadatum_taken [OF True] map_unique_key_update .
next
  case False
  show ?thesis
    unfolding set_metadatum_free [OF False] metadata_rows_create_free [OF False]
    by (simp add: unique_key_def)
qed

lemma value_after_set_metadatum:
  assumes "d \<in> set (metadata_rows (set_metadatum ct oid k v db))"
    and "unique_key d = (ct, oid, k)"
  shows "datum_value d = v"
proof (cases "(ct, oid, k) \<in> set (map unique_key (metadata_rows db))")
  case True
  from assms(1) obtain e where e: "e \<in> set (metadata_rows db)"
    "d = (if unique_key e = (ct, oid, k) then e\<lparr>datum_value := v\<rparr> else e)"
    unfolding metadata_rows_set_metadatum_taken [OF True] by auto
  show ?thesis
  proof (cases "unique_key e = (ct, oid, k)")
    case True
    with e show ?thesis by simp
  next
    case False
    with e assms(2) show ?thesis by simp
  qed
next
  case False
  from assms(1) have "d \<in> set (metadata_rows db) \<or>
      d = \<lparr>datum_id = next_id db, content_type = ct, object_id = oid, key = k, datum_value = v\<rparr>"
    unfolding set_metadatum_free [OF False] metadata_rows_create_free [OF False] by auto
  then show ?thesis
  proof
    assume "d \<in> set (metadata_rows db)"
    with assms(2) False show ?thesis by force
  next
    assume "d = \<lparr>datum_id = next_id db, content_type = ct, object_id = oid, key = k, datum_value = v\<rparr>"
    then show ?thesis by simp
  qed
qed

lemma set_metadatum_idem:
  "set_metadatum ct oid k v (set_metadatum ct oid k v db) = set_metadatum ct oid k v db"
proof -
  let ?db = "set_metadatum ct oid k v db"
  have "map (\<lambda>d. if unique_key d = (ct, oid, k) then d\<lparr>datum_value := v\<rparr> else d)
          (metadata_rows ?db) = metadata_rows ?db"
    by (rule map_idI) (auto dest: value_after_set_metadatum)
  then show ?thesis
    using key_taken_set_metadatum [of ct oid k v db]
    by (subst set_metadatum_def) simp
qed

lemma filter_unique:
  "distinct (map f xs) \<Longrightarrow> d \<in> set xs \<Longrightarrow> filter (\<lambda>e. f e = f d) xs = [d]"
proof (induction xs)
  case Nil
  then show ?case by simp
next
  case (Cons x xs)
  show ?case
  proof (cases "x = d")
    case True
    have "filter (\<lambda>e. f e = f d) xs = []"
      using Cons.prems True by (auto simp: filter_empty_conv image_iff)
    with True show ?thesis by simp
  next
    case False
    with Cons.prems have "d \<in> set xs" and "f x \<noteq> f d" by (auto simp: image_iff)
    with Cons show ?thesis by simp
  qed
qed

lemma one_row_after_set:
  assumes "unique_together db"
  shows "map datum_value (filter (\<lambda>d. unique_key d = (ct, oid, k))
           (metadata_rows (set_metadatum ct oid k v db))) = [v]"
proof -
  let ?db = "set_metadatum ct oid k v db"
  obtain d where d: "d \<in> set (metadata_rows ?db)" "unique_key d = (ct, oid, k)"
    using key_taken_set_metadatum [of ct oid k v db] by (auto simp: image_iff)
  have "distinct (map unique_key (metadata_rows ?db))"
    using unique_together_set_metadatum [OF assms] by (simp add: unique_together_def)
  from filter_unique [OF this d(1)] d(2)
  have "filter (\<lambda>e. unique_key e = (ct, oid, k)) (metadata_rows ?db) = [d]" by simp
  with value_after_set_metadatum [OF d] show ?thesis by simp
qed

lemma unique_together_delete_metadatum:
  "unique_together db \<Longrightarrow> unique_together (delete_metadatum datum db)"
  by (simp add: unique_together_def delete_metadatum_def distinct_map_filter)

lemma unique_together_object_rows_update:
  "unique_together (db\<lparr>object_rows := r\<rparr>) = unique_together db"
  by (simp add: unique_together_def)

lemma unique_together_delete_instance:
  "unique_together db \<Longrightarrow> unique_together (delete_instance rel obj db)"
  by (simp add: delete_instance_def Let_def unique_together_def distinct_map_filter)

lemma unique_together_fold_set:
  "unique_together db \<Longrightarrow>
   unique_together (fold (\<lambda>kv. set_metadatum ct oid (fst kv) (Some (snd kv))) kvs db)"
  by (induction kvs arbitrary: db) (simp_all add: unique_together_set_metadatum)

lemma unique_together_form_save:
  "unique_together db \<Longrightarrow>
   unique_together (form_save (metadata_form schema) data prefix obj db)"
  by (simp add: metadata_form_def unique_together_fold_set)

lemma at_most_one_row:
  assumes "unique_together db"
  shows "length (filter (\<lambda>d. unique_key d = t) (metadata_rows db)) \<le> 1"
proof (cases "filter (\<lambda>d. unique_key d = t) (metadata_rows db)")
  case Nil
  then show ?thesis by simp
next
  case (Cons d ds)
  then have "d \<in> set (filter (\<lambda>d. unique_key d = t) (metadata_rows db))" by simp
  then have d: "d \<in> set (metadata_rows db)" "unique_key d = t" by simp_all
  from assms have "distinct (map unique_key (metadata_rows db))"
    by (simp add: unique_together_def)
  from filter_unique [OF this d(1)] d(2) show ?thesis by simp
qed

text \<open>
  C3. (content_type, object_id, key) is unique over the Metadatum rows: a table that
  satisfies \<^verbatim>\<open>unique_together\<close> holds at most one row, hence at most one value, for every
  entity and key, and every operation on the table keeps it so: \<^verbatim>\<open>create\<close>,
  the filtered delete, the deletion of a row or of an instance, \<^verbatim>\<open>copy_metadata_to\<close>,
  \<^verbatim>\<open>set\<close> and the saving of a validated form. Setting the same (entity type, entity id,
  key, value) twice gives the table that setting it once gives, with exactly one row
  under the key, holding that value.
\<close>

theorem unique_together_invariant:
  assumes "unique_together db"
  shows "length (filter (\<lambda>d. unique_key d = (ct, oid, k)) (metadata_rows db)) \<le> 1
    \<and> unique_together (snd (create ct oid k v db))
    \<and> unique_together (delete_metadata ct oid db)
    \<and> unique_together (delete_metadatum datum db)
    \<and> unique_together (delete_instance rel obj db)
    \<and> unique_together (snd (copy_metadata_to self obj db))
    \<and> unique_together (set_metadatum ct oid k v db)
    \<and> unique_together (form_save (metadata_form schema) data prefix obj db)
    \<and> set_metadatum ct oid k v (set_metadatum ct oid k v db) = set_metadatum ct oid k v db
    \<and> map datum_value (filter (\<lambda>d. unique_key d = (ct, oid, k))
          (metadata_rows (set_metadatum ct oid k v (set_metadatum ct oid k v db)))) = [v]"
  using assms
  by (simp only: at_most_one_row unique_together_create unique_together_delete_metadata
      unique_together_delete_metadatum unique_together_delete_instance
      unique_together_copy_metadata_to unique_together_set_metadatum unique_together_form_save
      set_metadatum_idem one_row_after_set simp_thms)

theorem unique_together_invariant_witness:
  "unique_together sample_db
   \<and> unique_together (snd (copy_metadata_to project1 project2 sample_db))
   \<and> metadata_rows (set_metadatum ''project'' ''1'' ''colour'' (Some ''blue'')
        (set_metadatum ''project'' ''1'' ''colour'' (Some ''blue'') sample_db))
       = [colour_row\<lparr>datum_value := Some ''blue''\<rparr>, notes_row, size_row, owner_row]
   \<and> map datum_value (filter (\<lambda>d. unique_key d = (''project'', ''1'', ''colour''))
        (metadata_rows (set_metadatum ''project'' ''1'' ''colour'' (Some ''blue'')
           (set_metadatum ''project'' ''1'' ''colour'' (Some ''blue'') sample_db))))
       = [Some ''blue'']"
proof -
  have h: "unique_together sample_db"
    by (simp add: unique_together_def sample_defs unique_key_def)
  have rows: "metadata_rows (set_metadatum ''project'' ''1'' ''colour'' (Some ''blue'') sample_db)
       = [colour_row\<lparr>datum_value := Some ''blue''\<rparr>, notes_row, size_row, owner_row]"
    by (simp add: set_metadatum_def sample_defs unique_key_def)
  note t = unique_together_invariant [OF h, of "''project''" "''1''" "''colour''" "Some ''blue''"
      colour_row sample_relations project2 project1 "[]" Map.empty "[]"]
  from t have u: "unique_together (snd (copy_metadata_to project1 project2 sample_db))"
    by blast
  from t have idem: "set_metadatum ''project'' ''1'' ''colour'' (Some ''blue'')
        (set_metadatum ''project'' ''1'' ''colour'' (Some ''blue'') sample_db)
      = set_metadatum ''project'' ''1'' ''colour'' (Some ''blue'') sample_db"
    by blast
  from t have one: "map datum_value (filter (\<lambda>d. unique_key d = (''project'', ''1'', ''colour''))
        (metadata_rows (set_metadatum ''project'' ''1'' ''colour'' (Some ''blue'')
           (set_metadatum ''project'' ''1'' ''colour'' (Some ''blue'') sample_db))))
       = [Some ''blue'']"
    by blast
  from rows have rows2: "metadata_rows (set_metadatum ''project'' ''1'' ''colour'' (Some ''blue'')
        (set_metadatum ''project'' ''1'' ''colour'' (Some ''blue'') sample_db))
       = [colour_row\<lparr>datum_value := Some ''blue''\<rparr>, notes_row, size_row, owner_row]"
    by (simp only: idem)
  from h u rows2 one show ?thesis by blast
qed


section \<open>Reading the metadata of an object\<close>

lemma dict_of_foldl:
  "foldl (\<lambda>m kv. m(fst kv \<mapsto> snd kv)) m kvs = m ++ map_of (rev kvs)"
proof (induction kvs arbitrary: m)
  case Nil
  then show ?case by simp
next
  case (Cons kv kvs)
  have one: "m(fst kv \<mapsto> snd kv) = m ++ map_of [kv]"
    by (cases kv) simp
  have "foldl (\<lambda>m kv. m(fst kv \<mapsto> snd kv)) m (kv # kvs)
          = m(fst kv \<mapsto> snd kv) ++ map_of (rev kvs)"
    by (simp only: foldl_Cons Cons.IH)
  also have "\<dots> = m ++ (map_of [kv] ++ map_of (rev kvs))"
    unfolding one by (rule map_add_assoc [symmetric])
  also have "map_of [kv] ++ map_of (rev kvs) = map_of (rev (kv # kvs))"
    by (simp only: rev.simps map_of_append)
  finally show ?case .
qed

lemma dict_of_map_of: "dict_of kvs = map_of (rev kvs)"
  by (simp add: dict_of_def dict_of_foldl)

lemma dict_of_distinct:
  "distinct (map fst kvs) \<Longrightarrow> (k, v) \<in> set kvs \<Longrightarrow> dict_of kvs k = Some v"
  by (simp add: dict_of_map_of map_of_is_SomeI rev_map [symmetric])

lemma distinct_keys_filter:
  "distinct (map unique_key rows) \<Longrightarrow> distinct (map key (filter (refers_to ct oid) rows))"
proof (induction rows)
  case Nil
  then show ?case by simp
next
  case (Cons d rows)
  then have ih: "distinct (map key (filter (refers_to ct oid) rows))" by simp
  show ?case
  proof (cases "refers_to ct oid d")
    case False
    with ih show ?thesis by simp
  next
    case True
    have "key d \<notin> key ` set (filter (refers_to ct oid) rows)"
    proof
      assume "key d \<in> key ` set (filter (refers_to ct oid) rows)"
      then obtain e where "e \<in> set rows" "refers_to ct oid e" "key e = key d" by auto
      with True have "e \<in> set rows" "unique_key e = unique_key d"
        by (simp_all add: unique_key_def refers_to_def)
      then have "unique_key d \<in> unique_key ` set rows"
        by (metis image_eqI)
      with Cons.prems show False by simp
    qed
    with ih True show ?thesis by simp
  qed
qed

lemma distinct_keys_of_entity:
  "unique_together db \<Longrightarrow> distinct (map key (filter_metadata ct oid db))"
  by (simp add: unique_together_def filter_metadata_def distinct_keys_filter)

lemma null_row_is_read:
  assumes "unique_together db"
    and "d \<in> set (filter_metadata (instance_model obj) (instance_pk obj) db)"
  shows "get_metadata_form_initial_data obj db (key d) = Some (datum_value d)"
proof -
  let ?rows = "filter_metadata (instance_model obj) (instance_pk obj) db"
  have "distinct (map fst (map (\<lambda>d. (key d, datum_value d)) ?rows))"
    using distinct_keys_of_entity [OF assms(1), of "instance_model obj" "instance_pk obj"]
    by (simp add: comp_def)
  moreover have "(key d, datum_value d) \<in> set (map (\<lambda>d. (key d, datum_value d)) ?rows)"
    using assms(2) by auto
  ultimately show ?thesis
    unfolding get_metadata_form_initial_data_def by (rule dict_of_distinct)
qed


text \<open>
  C10. A Metadatum value may be NULL. On a table that satisfies \<^verbatim>\<open>unique_together\<close>,
  creating a row with the value \<^verbatim>\<open>None\<close> under a key the object does not have yet
  succeeds and stores the row as given; and for every stored row of an object whose
  value is \<^verbatim>\<open>None\<close>, the mapping read by \<^verbatim>\<open>get_metadata_form_initial_data\<close> contains the
  key of the row with the value \<^verbatim>\<open>None\<close> (\<open>Some None\<close>): the key is not left out.
\<close>

theorem null_value_is_stored_and_read:
  assumes "unique_together db"
  shows "((instance_model obj, instance_pk obj, k) \<notin> set (map unique_key (metadata_rows db)) \<longrightarrow>
            fst (create (instance_model obj) (instance_pk obj) k None db)
              = Inr \<lparr>datum_id = next_id db, content_type = instance_model obj,
                     object_id = instance_pk obj, key = k, datum_value = None\<rparr>
            \<and> get_metadata_form_initial_data obj
                 (snd (create (instance_model obj) (instance_pk obj) k None db)) k = Some None)
       \<and> (d \<in> set (filter_metadata (instance_model obj) (instance_pk obj) db)
            \<and> datum_value d = None \<longrightarrow>
            get_metadata_form_initial_data obj db (key d) = Some None)"
proof (intro conjI impI)
  assume free: "(instance_model obj, instance_pk obj, k) \<notin> set (map unique_key (metadata_rows db))"
  let ?new = "\<lparr>datum_id = next_id db, content_type = instance_model obj,
               object_id = instance_pk obj, key = k, datum_value = None :: 'a option\<rparr>"
  let ?db' = "snd (create (instance_model obj) (instance_pk obj) k None db)"
  show "fst (create (instance_model obj) (instance_pk obj) k None db) = Inr ?new"
    by (rule create_free [OF free])
  have u: "unique_together ?db'"
    by (rule unique_together_create [OF assms])
  have "?new \<in> set (filter_metadata (instance_model obj) (instance_pk obj) ?db')"
    by (simp add: filter_metadata_create_same [OF free])
  from null_row_is_read [OF u this]
  show "get_metadata_form_initial_data obj ?db' k = Some None" by simp
next
  assume "d \<in> set (filter_metadata (instance_model obj) (instance_pk obj) db) \<and> datum_value d = None"
  with null_row_is_read [OF assms, of d obj]
  show "get_metadata_form_initial_data obj db (key d) = Some None" by simp
qed

theorem null_value_is_stored_and_read_witness:
  "unique_together sample_db
   \<and> notes_row \<in> set (filter_metadata (instance_model project1) (instance_pk project1) sample_db)
   \<and> datum_value notes_row = None
   \<and> get_metadata_form_initial_data project1 sample_db ''notes'' = Some None
   \<and> (instance_model project2, instance_pk project2, ''notes'')
        \<notin> set (map unique_key (metadata_rows sample_db))
   \<and> get_metadata_form_initial_data project2
        (snd (create ''project'' ''2'' ''notes'' None sample_db)) ''notes'' = Some None
   \<and> get_metadata_form_initial_data project2 sample_db ''notes'' = None"
proof -
  have h: "unique_together sample_db"
    by (simp add: unique_together_def sample_defs unique_key_def)
  have a: "notes_row \<in> set (filter_metadata (instance_model project1) (instance_pk project1) sample_db)
      \<and> datum_value notes_row = None"
    by (simp add: sample_defs filter_metadata_def refers_to_def)
  have b: "(instance_model project2, instance_pk project2, ''notes'')
        \<notin> set (map unique_key (metadata_rows sample_db))"
    by (simp add: sample_defs unique_key_def)
  have c: "get_metadata_form_initial_data project2 sample_db ''notes'' = None"
    by (simp add: sample_defs get_metadata_form_initial_data_def dict_of_def
        filter_metadata_def refers_to_def)
  have k: "key notes_row = ''notes''" "instance_model project2 = ''project''"
    "instance_pk project2 = ''2''"
    by (simp_all add: sample_defs)
  from null_value_is_stored_and_read [OF h, of project1 "''notes''" notes_row]
    null_value_is_stored_and_read [OF h, of project2 "''notes''" notes_row] a b c h k
  show ?thesis by simp
qed

section \<open>Copying between objects\<close>

lemma create_copies_succeeds:
  assumes "distinct (map key data)"
    and "list_all (\<lambda>d. (ct, oid, key d) \<notin> set (map unique_key (metadata_rows db))) data"
  shows "fst (create_copies ct oid data db) = Inr () \<and>
         map (\<lambda>d. (key d, datum_value d)) (filter_metadata ct oid (snd (create_copies ct oid data db)))
           = map (\<lambda>d. (key d, datum_value d)) (filter_metadata ct oid db)
             @ map (\<lambda>d. (key d, datum_value d)) data"
  using assms
proof (induction data arbitrary: db)
  case Nil
  then show ?case by simp
next
  case (Cons datum data)
  let ?new = "\<lparr>datum_id = next_id db, content_type = ct, object_id = oid,
               key = key datum, datum_value = datum_value datum\<rparr>"
  let ?db' = "snd (create ct oid (key datum) (datum_value datum) db)"
  from Cons.prems have free: "(ct, oid, key datum) \<notin> set (map unique_key (metadata_rows db))"
    by simp
  have c: "create ct oid (key datum) (datum_value datum) db = (Inr ?new, ?db')"
    using create_free [OF free, of "datum_value datum"] by (simp add: prod_eq_iff)
  have rows': "metadata_rows ?db' = metadata_rows db @ [?new]"
    by (rule metadata_rows_create_free [OF free])
  have d: "distinct (map key data)" using Cons.prems by simp
  have "list_all (\<lambda>d. (ct, oid, key d) \<notin> set (map unique_key (metadata_rows ?db'))) data"
  proof -
    have "key d \<noteq> key datum" if "d \<in> set data" for d
      using that Cons.prems(1) by (metis distinct.simps(2) image_eqI list.simps(9) list.set_map)
    with Cons.prems(2) show ?thesis
      unfolding rows' by (simp add: list_all_iff unique_key_def)
  qed
  from Cons.IH [OF d this]
  have ih: "fst (create_copies ct oid data ?db') = Inr ()"
    "map (\<lambda>d. (key d, datum_value d)) (filter_metadata ct oid (snd (create_copies ct oid data ?db')))
       = map (\<lambda>d. (key d, datum_value d)) (filter_metadata ct oid ?db')
         @ map (\<lambda>d. (key d, datum_value d)) data"
    by simp_all
  have step: "create_copies ct oid (datum # data) db = create_copies ct oid data ?db'"
    by (subst create_copies.simps, subst c) simp
  show ?case
    unfolding step using ih by (simp add: filter_metadata_create_same [OF free])
qed

lemma filter_metadata_delete_same:
  "filter_metadata ct oid (delete_metadata ct oid db) = []"
  by (simp add: filter_metadata_def delete_metadata_def)

lemma copy_metadata_to_distinct:
  assumes u: "unique_together db"
    and ne: "(instance_model self, instance_pk self) \<noteq> (instance_model obj, instance_pk obj)"
  shows "fst (copy_metadata_to self obj db) = Inr () \<and>
         map (\<lambda>d. (key d, datum_value d))
             (filter_metadata (instance_model obj) (instance_pk obj)
                (snd (copy_metadata_to self obj db)))
           = map (\<lambda>d. (key d, datum_value d)) (metadata_all self db)"
proof -
  let ?ct = "instance_model obj" and ?oid = "instance_pk obj"
  let ?db1 = "delete_metadata ?ct ?oid db"
  have data: "metadata_all self ?db1 = metadata_all self db"
    unfolding metadata_all_def by (rule filter_metadata_delete_other [OF ne])
  have dist: "distinct (map key (metadata_all self db))"
    unfolding metadata_all_def by (rule distinct_keys_of_entity [OF u])
  have none: "filter_metadata ?ct ?oid ?db1 = []"
    by (rule filter_metadata_delete_same)
  have free: "list_all (\<lambda>d. (?ct, ?oid, key d) \<notin> set (map unique_key (metadata_rows ?db1)))
                (metadata_all self db)"
    by (auto simp: list_all_iff delete_metadata_def unique_key_def refers_to_def)
  from create_copies_succeeds [OF dist free] none data
  show ?thesis by (simp add: copy_metadata_to_def Let_def)
qed

lemma copy_metadata_to_mapping:
  assumes "unique_together db"
    and "(instance_model self, instance_pk self) \<noteq> (instance_model obj, instance_pk obj)"
  shows "get_metadata_form_initial_data obj (snd (copy_metadata_to self obj db))
           = get_metadata_form_initial_data self db"
  using copy_metadata_to_distinct [OF assms]
  by (simp add: get_metadata_form_initial_data_def metadata_all_def)

text \<open>
  C1. The copy run with the source as its own destination, \<^verbatim>\<open>x.copy_metadata_to(x)\<close>:
  the rows of the object are deleted before \<^verbatim>\<open>self.metadata.all()\<close> is read, so nothing
  is created again. The object had the keys \<^verbatim>\<open>colour\<close> and \<^verbatim>\<open>notes\<close>; the copy returns
  normally and the object is left without metadata, where the claim promises the mapping
  the source had when the copy started.
\<close>

theorem copy_metadata_to_self_loses_metadata:
  "get_metadata_form_initial_data project1 sample_db ''colour'' = Some (Some ''red'')
   \<and> copy_metadata_to project1 project1 sample_db
       = (Inr (), sample_db\<lparr>metadata_rows := [size_row, owner_row]\<rparr>)
   \<and> get_metadata_form_initial_data project1 (snd (copy_metadata_to project1 project1 sample_db))
       = Map.empty"
  by (simp add: sample_defs get_metadata_form_initial_data_def dict_of_def filter_metadata_def
      refers_to_def copy_metadata_to_def delete_metadata_def metadata_all_def Let_def)

section \<open>Validation\<close>

lemma validate_Cons_errors:
  "snd (validate (f # fs) rawValues) =
     (if rule_fails rawValues f
      then (rule_name f,
            case rawValues (rule_name f) of
              None \<Rightarrow> MissingRequiredError
            | Some x \<Rightarrow> InvalidValueError (projl (rule_validator f x)))
           # snd (validate fs rawValues)
      else snd (validate fs rawValues))"
  by (cases "validate fs rawValues")
     (simp add: rule_fails_def split: option.split sum.split)

lemma validate_error_names:
  "map fst (snd (validate schema rawValues)) = map rule_name (filter (rule_fails rawValues) schema)"
proof (induction schema)
  case Nil
  then show ?case by simp
next
  case (Cons f fs)
  then show ?case
    by (cases "rule_fails rawValues f") (simp_all only: validate_Cons_errors filter.simps list.map fst_conv if_True if_False)
qed

text \<open>
  C7. For every compiled schema and every mapping of raw values: the validation is valid
  iff it recorded no per-field error, which is the case iff no field fails; the names
  of the recorded errors are the names of the failing fields, each of them, in field
  order, so a failure of one field never hides the failure of another; the metadata
  form of the schema is valid under the same condition; and \<^verbatim>\<open>response_add\<close> hands
  every recorded error to the template.
\<close>

theorem validation_reports_every_failing_field:
  "(schema_valid schema rawValues \<longleftrightarrow> snd (validate schema rawValues) = [])
   \<and> (schema_valid schema rawValues \<longleftrightarrow> filter (rule_fails rawValues) schema = [])
   \<and> map fst (snd (validate schema rawValues))
       = map rule_name (filter (rule_fails rawValues) schema)
   \<and> (is_valid (metadata_form schema) data prefix
        \<longleftrightarrow> schema_valid schema (prefixed prefix data))
   \<and> response_add_errors parent_errors (snd (validate schema rawValues))
       = parent_errors @ map snd (snd (validate schema rawValues))"
proof -
  have "snd (validate schema rawValues) = [] \<longleftrightarrow> map fst (snd (validate schema rawValues)) = []"
    by simp
  also have "\<dots> \<longleftrightarrow> filter (rule_fails rawValues) schema = []"
    unfolding validate_error_names by simp
  finally have none: "snd (validate schema rawValues) = []
      \<longleftrightarrow> filter (rule_fails rawValues) schema = []" .
  have shown: "response_add_errors parent_errors (snd (validate schema rawValues))
       = parent_errors @ map snd (snd (validate schema rawValues))"
    by (simp add: response_add_errors_def)
  have form: "is_valid (metadata_form schema) data prefix
        \<longleftrightarrow> schema_valid schema (prefixed prefix data)"
    by (simp add: is_valid_def metadata_form_def schema_valid_def)
  from none shown form validate_error_names [of schema rawValues] show ?thesis
    by (simp only: schema_valid_def simp_thms)
qed

theorem validation_reports_every_failing_field_witness:
  "snd (validate sample_schema (prefixed ''metadata'' (POST bad_request)))
     = [(''name'', MissingRequiredError),
        (''country'', InvalidValueError ''not a valid choice'')]
   \<and> filter (rule_fails (prefixed ''metadata'' (POST bad_request))) sample_schema = sample_schema
   \<and> \<not> schema_valid sample_schema (prefixed ''metadata'' (POST bad_request))
   \<and> schema_valid sample_schema (prefixed ''metadata'' (POST good_request))"
proof -
  have e: "snd (validate sample_schema (prefixed ''metadata'' (POST bad_request)))
     = [(''name'', MissingRequiredError),
        (''country'', InvalidValueError ''not a valid choice'')]"
    by (simp add: sample_schema_def prefixed_def bad_request_def one_of_def nonempty_text_def)
  have g: "snd (validate sample_schema (prefixed ''metadata'' (POST good_request))) = []"
    by (simp add: sample_schema_def prefixed_def good_request_def one_of_def nonempty_text_def)
  have f: "filter (rule_fails (prefixed ''metadata'' (POST bad_request))) sample_schema
      = sample_schema"
    by (simp add: sample_schema_def prefixed_def bad_request_def one_of_def nonempty_text_def
        rule_fails_def)
  note bad = validation_reports_every_failing_field
         [of sample_schema "prefixed ''metadata'' (POST bad_request)" Map.empty "[]" "[]"]
  note good = validation_reports_every_failing_field
         [of sample_schema "prefixed ''metadata'' (POST good_request)" Map.empty "[]" "[]"]
  from bad have "schema_valid sample_schema (prefixed ''metadata'' (POST bad_request))
      \<longleftrightarrow> snd (validate sample_schema (prefixed ''metadata'' (POST bad_request))) = []"
    by blast
  with e have nv: "\<not> schema_valid sample_schema (prefixed ''metadata'' (POST bad_request))"
    by simp
  from good have "schema_valid sample_schema (prefixed ''metadata'' (POST good_request))
      \<longleftrightarrow> snd (validate sample_schema (prefixed ''metadata'' (POST good_request))) = []"
    by blast
  with g have v: "schema_valid sample_schema (prefixed ''metadata'' (POST good_request))"
    by simp
  from e f nv v show ?thesis by blast
qed


section \<open>Registering a field type twice\<close>

text \<open>
  C4, as claimed, fails: \<^verbatim>\<open>register_field_type\<close> looks nothing up and raises nothing.
  After the fifteen registrations of the module, registering \<^verbatim>\<open>BooleanField\<close> once more
  returns a registry of sixteen entries.
\<close>

theorem register_field_type_twice_counterexample:
  "''booleanfield'' \<in> set (map fst registered_child_models)
   \<and> length registered_child_models = 15
   \<and> length (register_field_type registered_child_models ''booleanfield'' None) = 16
   \<and> register_field_type registered_child_models ''booleanfield'' None \<noteq> registered_child_models"
  by (simp add: registered_child_models_def register_field_type_def)

text \<open>
  C4, amended. For every field model already in the registry, registering it again
  raises no error and appends one more entry for it: the registry is one entry longer,
  its earlier entries are as before, the new last entry is for that model, and the model
  now occurs more than once.
\<close>

theorem register_field_type_appends:
  assumes "model \<in> set (map fst child_models)"
  shows "length (register_field_type child_models model model_admin) = Suc (length child_models)
    \<and> take (length child_models) (register_field_type child_models model model_admin) = child_models
    \<and> fst (last (register_field_type child_models model model_admin)) = model
    \<and> \<not> distinct (map fst (register_field_type child_models model model_admin))"
  using assms by (simp add: register_field_type_def)

theorem register_field_type_appends_witness:
  "''booleanfield'' \<in> set (map fst registered_child_models)
   \<and> length (register_field_type registered_child_models ''booleanfield'' None) = 16
   \<and> \<not> distinct (map fst (register_field_type registered_child_models ''booleanfield'' None))"
proof -
  have h: "''booleanfield'' \<in> set (map fst registered_child_models)"
    by (simp add: registered_child_models_def register_field_type_def)
  have l: "length registered_child_models = 15"
    by (simp add: registered_child_models_def register_field_type_def)
  from register_field_type_appends [OF h, of None] h l show ?thesis by simp
qed


section \<open>Deleting objects and rows\<close>

lemma collect_step_set:
  "set (collect_step pairs objs) = set objs \<union> {y. \<exists>x \<in> set objs. (x, y) \<in> set pairs}"
  by (auto simp: collect_step_def image_iff)

lemma collect_keeps: "set objs \<subseteq> set (collect n pairs objs)"
proof (induction n arbitrary: objs)
  case 0
  then show ?case by simp
next
  case (Suc n)
  have "set objs \<subseteq> set (collect_step pairs objs)"
    by (simp add: collect_step_set)
  also have "\<dots> \<subseteq> set (collect n pairs (collect_step pairs objs))"
    by (rule Suc.IH)
  finally show ?case by simp
qed

lemma root_collected: "(instance_model obj, instance_pk obj) \<in> set (collected rel obj)"
  using collect_keeps [of "[(instance_model obj, instance_pk obj)]"
      "length (deleted_with rel)" "deleted_with rel"]
  by (simp add: collected_def)

text \<open>The rounds suffice: what \<open>collected\<close> returns is closed.\<close>

lemma collect_step_closed:
  "closed_under pairs objs \<Longrightarrow> collect_step pairs objs = objs"
proof -
  assume c: "closed_under pairs objs"
  have "filter (\<lambda>y. y \<notin> set objs) (map snd (filter (\<lambda>xy. fst xy \<in> set objs) pairs)) = []"
    using c by (auto simp: closed_under_def list_all_iff filter_empty_conv)
  then show ?thesis by (simp add: collect_step_def)
qed

lemma collect_closed_stays:
  "closed_under pairs objs \<Longrightarrow> collect n pairs objs = objs"
  by (induction n) (simp_all add: collect_step_closed)

lemma collect_step_progress:
  assumes "\<not> closed_under pairs objs"
  shows "card (snd ` set pairs - set (collect_step pairs objs))
           < card (snd ` set pairs - set objs)"
proof -
  from assms obtain x y where xy: "(x, y) \<in> set pairs" "x \<in> set objs" "y \<notin> set objs"
    by (auto simp: closed_under_def list_all_iff)
  then have y_new: "y \<in> set (collect_step pairs objs)"
    by (auto simp: collect_step_set)
  have y_old: "y \<in> snd ` set pairs - set objs"
    using xy by (force simp: image_iff)
  have "snd ` set pairs - set (collect_step pairs objs) \<subseteq> snd ` set pairs - set objs"
    by (auto simp: collect_step_set)
  with y_new y_old
  have "snd ` set pairs - set (collect_step pairs objs) \<subset> snd ` set pairs - set objs"
    by blast
  then show ?thesis by (simp add: psubset_card_mono)
qed

lemma collect_closed:
  "card (snd ` set pairs - set objs) \<le> n \<Longrightarrow> closed_under pairs (collect n pairs objs)"
proof (induction n arbitrary: objs)
  case 0
  then have "snd ` set pairs \<subseteq> set objs" by simp
  then show ?case by (auto simp: closed_under_def list_all_iff)
next
  case (Suc n)
  show ?case
  proof (cases "closed_under pairs objs")
    case True
    then show ?thesis by (simp only: collect_closed_stays)
  next
    case False
    from collect_step_progress [OF False] Suc.prems
    have "card (snd ` set pairs - set (collect_step pairs objs)) \<le> n" by simp
    from Suc.IH [OF this] show ?thesis by simp
  qed
qed

lemma collected_closed: "closed_under (deleted_with rel) (collected rel obj)"
proof -
  have "card (snd ` set (deleted_with rel) - set [(instance_model obj, instance_pk obj)])
          \<le> card (snd ` set (deleted_with rel))"
    by (simp add: card_mono)
  also have "\<dots> \<le> length (deleted_with rel)"
    by (metis card_length length_map list.set_map)
  finally show ?thesis
    unfolding collected_def by (rule collect_closed)
qed

text \<open>
  C5, as claimed, fails for an object whose model inherits \<^verbatim>\<open>HasMetadata\<close>: the generic
  relation makes the deletion of the object delete the Metadatum rows that point to it.
  Project 1 has two rows before it is deleted and none afterwards.
\<close>

theorem delete_instance_cascades_counterexample:
  "instance_model project1 \<in> set (has_metadata_models sample_relations)
   \<and> filter_metadata ''project'' ''1'' sample_db = [colour_row, notes_row]
   \<and> filter_metadata ''project'' ''1'' (delete_instance sample_relations project1 sample_db) = []"
  by (simp add: sample_defs sample_relations_def delete_instance_def filter_metadata_def
      refers_to_def Let_def collected_def collect_step_def cascades_to_def
      ContentType_model_def)

text \<open>
  C5, amended. Deleting a Metadatum never affects the entity. Deleting the external
  entity a Metadatum points to deletes that Metadatum row when the model of the entity
  inherits \<^verbatim>\<open>HasMetadata\<close>; it leaves that row stored and unchanged when the model does
  not inherit \<^verbatim>\<open>HasMetadata\<close> and the deletion does not reach the ContentType row of the
  model.
\<close>

theorem delete_instance_cascade:
  assumes "d \<in> set (metadata_rows db)"
    and "refers_to (instance_model obj) (instance_pk obj) d"
  shows "object_rows (delete_metadatum datum db) = object_rows db
    \<and> (instance_model obj \<in> set (has_metadata_models rel) \<longrightarrow>
         d \<notin> set (metadata_rows (delete_instance rel obj db)))
    \<and> (instance_model obj \<notin> set (has_metadata_models rel)
         \<and> (ContentType_model, instance_model obj) \<notin> set (collected rel obj) \<longrightarrow>
         d \<in> set (metadata_rows (delete_instance rel obj db)))"
proof -
  from assms(2) have at: "content_type d = instance_model obj" "object_id d = instance_pk obj"
    by (simp_all add: refers_to_def)
  have root: "(content_type d, object_id d) \<in> set (collected rel obj)"
    unfolding at by (rule root_collected)
  have rows: "set (metadata_rows (delete_instance rel obj db))
      = {e \<in> set (metadata_rows db). \<not> cascades_to rel (collected rel obj) e}"
    by (auto simp: delete_instance_def Let_def)
  have objects: "object_rows (delete_metadatum datum db) = object_rows db"
    by (simp add: delete_metadatum_def)
  have gone: "d \<notin> set (metadata_rows (delete_instance rel obj db))"
    if "instance_model obj \<in> set (has_metadata_models rel)"
    using that root by (simp add: rows cascades_to_def at)
  have kept: "d \<in> set (metadata_rows (delete_instance rel obj db))"
    if "instance_model obj \<notin> set (has_metadata_models rel)"
      and "(ContentType_model, instance_model obj) \<notin> set (collected rel obj)"
    using that assms(1) by (simp add: rows cascades_to_def at)
  from objects gone kept show ?thesis by blast
qed

theorem delete_instance_cascade_witness:
  "colour_row \<in> set (metadata_rows sample_db)
   \<and> refers_to (instance_model project1) (instance_pk project1) colour_row
   \<and> instance_model project1 \<in> set (has_metadata_models sample_relations)
   \<and> colour_row \<notin> set (metadata_rows (delete_instance sample_relations project1 sample_db))
   \<and> owner_row \<in> set (metadata_rows sample_db)
   \<and> refers_to (instance_model dataset9) (instance_pk dataset9) owner_row
   \<and> instance_model dataset9 \<notin> set (has_metadata_models sample_relations)
   \<and> (ContentType_model, instance_model dataset9) \<notin> set (collected sample_relations dataset9)
   \<and> owner_row \<in> set (metadata_rows (delete_instance sample_relations dataset9 sample_db))
   \<and> object_rows (delete_metadatum colour_row sample_db) = object_rows sample_db"
proof -
  have p: "colour_row \<in> set (metadata_rows sample_db)"
    "refers_to (instance_model project1) (instance_pk project1) colour_row"
    "instance_model project1 \<in> set (has_metadata_models sample_relations)"
    by (simp_all add: sample_defs sample_relations_def refers_to_def)
  have q: "owner_row \<in> set (metadata_rows sample_db)"
    "refers_to (instance_model dataset9) (instance_pk dataset9) owner_row"
    "instance_model dataset9 \<notin> set (has_metadata_models sample_relations)"
    by (simp_all add: sample_defs sample_relations_def refers_to_def)
  have c: "(ContentType_model, instance_model dataset9)
      \<notin> set (collected sample_relations dataset9)"
    by (simp add: sample_defs sample_relations_def collected_def collect_step_def
        ContentType_model_def)
  from delete_instance_cascade [OF p(1) p(2), of colour_row sample_relations] p(3)
  have gone: "colour_row \<notin> set (metadata_rows (delete_instance sample_relations project1 sample_db))"
    by blast
  from delete_instance_cascade [OF q(1) q(2), of colour_row sample_relations] q(3) c
  have kept: "owner_row \<in> set (metadata_rows (delete_instance sample_relations dataset9 sample_db))"
    by blast
  from delete_instance_cascade [OF p(1) p(2), of colour_row sample_relations]
  have objects: "object_rows (delete_metadatum colour_row sample_db) = object_rows sample_db"
    by blast
  from p q c gone kept objects show ?thesis by blast
qed

text \<open>
  The other two ways into the Metadatum table, run on the sample: deleting dataset 9
  takes project 2 with it, and with project 2 its row; deleting the ContentType row of
  the projects takes every row of a project.
\<close>

lemma delete_instance_through_foreign_key:
  "metadata_rows (delete_instance sample_relations dataset9 sample_db)
     = [colour_row, notes_row, owner_row]
   \<and> object_rows (delete_instance sample_relations dataset9 sample_db)
     = [((''project'', ''1''), ''alpha'')]"
  by (simp add: sample_defs sample_relations_def delete_instance_def Let_def collected_def
      collect_step_def cascades_to_def ContentType_model_def)

lemma delete_instance_content_type:
  "metadata_rows (delete_instance sample_relations project_content_type sample_db) = [owner_row]"
  by (simp add: sample_defs sample_relations_def project_content_type_def delete_instance_def
      Let_def collected_def collect_step_def cascades_to_def ContentType_model_def)

section \<open>Saving through the admin\<close>

text \<open>
  C2. With a metadata form class configured, a submission in which some field of the
  metadata form has an error writes nothing: \<^verbatim>\<open>save_model\<close> returns the database it was
  given, so neither the row of the owning object nor any Metadatum row is created or
  changed.
\<close>

theorem save_model_invalid_writes_nothing:
  "metadata_form_class self = Some cls \<Longrightarrow> form_errors cls (POST request) ''metadata'' \<noteq> [] \<Longrightarrow>
   save_model self request obj form change db = db"
  by (simp add: save_model_def get_metadata_form_class_def is_valid_def)

theorem save_model_invalid_writes_nothing_witness:
  "metadata_form_class sample_admin = Some (metadata_form sample_schema)
   \<and> form_errors (metadata_form sample_schema :: (string, field_error, string, string) form_class)
         (POST bad_request) ''metadata''
       = [(''name'', MissingRequiredError),
          (''country'', InvalidValueError ''not a valid choice'')]
   \<and> save_model sample_admin bad_request project1 () True sample_db = sample_db"
proof -
  have a: "metadata_form_class sample_admin = Some (metadata_form sample_schema)"
    by (simp add: sample_admin_def)
  have e: "form_errors (metadata_form sample_schema :: (string, field_error, string, string) form_class)
         (POST bad_request) ''metadata''
       = [(''name'', MissingRequiredError),
          (''country'', InvalidValueError ''not a valid choice'')]"
    by (simp add: metadata_form_def sample_schema_def prefixed_def bad_request_def one_of_def
        nonempty_text_def)
  then have ne: "form_errors (metadata_form sample_schema :: (string, field_error, string, string) form_class)
         (POST bad_request) ''metadata'' \<noteq> []"
    by simp
  from save_model_invalid_writes_nothing [OF a ne, of project1 "()" True sample_db] a e
  show ?thesis by simp
qed

text \<open>
  C8. With a metadata form class configured, a request whose POST data has no
  \<^verbatim>\<open>_has_metadata\<close> key writes nothing, valid metadata or not: \<^verbatim>\<open>save_model\<close> returns
  the database it was given.
\<close>

theorem save_model_without_marker_writes_nothing:
  "metadata_form_class self = Some cls \<Longrightarrow> ''_has_metadata'' \<notin> dom (POST request) \<Longrightarrow>
   save_model self request obj form change db = db"
  by (simp add: save_model_def get_metadata_form_class_def)

theorem save_model_without_marker_writes_nothing_witness:
  "metadata_form_class sample_admin = Some (metadata_form sample_schema)
   \<and> ''_has_metadata'' \<notin> dom (POST unmarked_request)
   \<and> is_valid (metadata_form sample_schema :: (string, field_error, string, string) form_class)
         (POST unmarked_request) ''metadata''
   \<and> save_model sample_admin unmarked_request project1 () True sample_db = sample_db"
proof -
  have a: "metadata_form_class sample_admin = Some (metadata_form sample_schema)"
    by (simp add: sample_admin_def)
  have m: "''_has_metadata'' \<notin> dom (POST unmarked_request)"
    by (simp add: unmarked_request_def dom_def)
  have v: "is_valid (metadata_form sample_schema :: (string, field_error, string, string) form_class)
         (POST unmarked_request) ''metadata''"
    by (simp add: is_valid_def metadata_form_def sample_schema_def prefixed_def
        unmarked_request_def one_of_def nonempty_text_def)
  from save_model_without_marker_writes_nothing [OF a m, of project1 "()" True sample_db] a m v
  show ?thesis by simp
qed

text \<open>
  The other branch, for comparison: with the marker and valid metadata the object is
  saved and one row per validated field is written.
\<close>

lemma save_model_valid_writes:
  "metadata_rows (save_model sample_admin good_request project1 () True sample_db)
     = [colour_row, notes_row, size_row, owner_row,
        \<lparr>datum_id = 5, content_type = ''project'', object_id = ''1'', key = ''name'',
          datum_value = Some ''Ada''\<rparr>,
        \<lparr>datum_id = 6, content_type = ''project'', object_id = ''1'', key = ''country'',
          datum_value = Some ''UK''\<rparr>]"
  by (simp add: save_model_def get_metadata_form_class_def sample_admin_def is_valid_def
      metadata_form_def sample_schema_def prefixed_def good_request_def one_of_def
      nonempty_text_def save_object_def set_metadatum_def create_def Let_def unique_key_def
      sample_defs)

end
